theory Spec2Isabelle
  imports Main "HOL-Library.Word"
begin

unbundle bit_operations_syntax

section \<open>The ETL module \<open>cord19q/etl/execute.py\<close>\<close>

text \<open>
  A shallow embedding of \<open>execute.py\<close>, the module that turns the CORD-19 metadata file
  and the per-article JSON documents into the \<open>articles\<close> and \<open>sections\<close> tables.

  Python strings are modelled as \<open>string\<close>; a \<open>char\<close> stands for the code point of the
  same number, so the strings of the model are the Python strings over U+0000..U+00FF.
  Python exceptions are values of \<open>exn\<close>; a function that can raise returns
  \<open>exn + 'a\<close>, and a function that also prints or writes to the database returns the
  world it leaves behind together with the exception, if one escaped.
\<close>

subsection \<open>Python values and exceptions\<close>

datatype datetime =
  DateTime (year: int) (month: int) (day: int) (hour: int) (minute: int) (second: int)

text \<open>
  The values that reach a row tuple or come out of \<open>json.load\<close>. JSON numbers are
  integers here; floating point numbers are left out.
\<close>

datatype pyval =
    PNone
  | PBool bool
  | PInt int
  | PStr string
  | PDate datetime
  | PList "pyval list"
  | PDict "(string \<times> pyval) list"

datatype exn_kind =
    KeyError | IndexError | TypeError | ValueError | AttributeError | UnicodeEncodeError
  | JSONDecodeError | OSError | ParserError
  | OperationalError | IntegrityError | ProgrammingError

text \<open>An exception: its class and a description of the failure.\<close>

datatype exn = Raise (kind: exn_kind) (message: string)

text \<open>Python's truth value of an object (\<open>if value\<close>, \<open>not uid\<close>).\<close>

fun truthy :: "pyval \<Rightarrow> bool" where
  "truthy PNone = False"
| "truthy (PBool b) = b"
| "truthy (PInt i) = (i \<noteq> 0)"
| "truthy (PStr s) = (s \<noteq> [])"
| "truthy (PDate d) = True"
| "truthy (PList xs) = (xs \<noteq> [])"
| "truthy (PDict kvs) = (kvs \<noteq> [])"

subsection \<open>String operations\<close>

text \<open>\<open>str.startswith\<close>.\<close>

definition startswith :: "string \<Rightarrow> string \<Rightarrow> bool" where
  "startswith s p = (take (length p) s = p)"

text \<open>The operator \<open>x in text\<close> on strings: \<open>x\<close> occurs in \<open>text\<close> as a substring.\<close>

fun str_contains :: "string \<Rightarrow> string \<Rightarrow> bool" where
  "str_contains [] x = (x = [])"
| "str_contains (c # cs) x = (startswith (c # cs) x \<or> str_contains cs x)"

text \<open>\<open>sep.join(xs)\<close>.\<close>

fun join :: "string \<Rightarrow> string list \<Rightarrow> string" where
  "join sep [] = []"
| "join sep [x] = x"
| "join sep (x # y # ys) = x @ sep @ join sep (y # ys)"

text \<open>
  \<open>str.lower\<close> on U+0000..U+00FF: the letters A-Z and the capital letters
  U+00C0..U+00DE (the multiplication sign U+00D7 apart) move up by 32.
\<close>

definition lower_char :: "char \<Rightarrow> char" where
  "lower_char c = (let n = (of_char c :: nat) in
     if (65 \<le> n \<and> n \<le> 90) \<or> (192 \<le> n \<and> n \<le> 222 \<and> n \<noteq> 215)
     then char_of (n + 32) else c)"

definition lower :: "string \<Rightarrow> string" where
  "lower s = map lower_char s"

text \<open>
  \<open>str.isdigit\<close>: a non-empty string of digit characters. On U+0000..U+00FF these
  are 0-9 and the superscripts two, three and one (U+00B2, U+00B3, U+00B9).
\<close>

definition isdigit_char :: "char \<Rightarrow> bool" where
  "isdigit_char c = (let n = (of_char c :: nat) in
     (48 \<le> n \<and> n \<le> 57) \<or> n = 178 \<or> n = 179 \<or> n = 185)"

definition isdigit :: "string \<Rightarrow> bool" where
  "isdigit s = (s \<noteq> [] \<and> list_all isdigit_char s)"

text \<open>
  White space as \<open>str.isspace\<close>, the regular expression class \<open>\s\<close> and \<open>int\<close>
  read it, on U+0000..U+00FF.
\<close>

definition isspace_char :: "char \<Rightarrow> bool" where
  "isspace_char c = (let n = (of_char c :: nat) in
     (9 \<le> n \<and> n \<le> 13) \<or> (28 \<le> n \<and> n \<le> 32) \<or> n = 133 \<or> n = 160)"

text \<open>\<open>str.rstrip\<close> with no argument.\<close>

definition rstrip :: "string \<Rightarrow> string" where
  "rstrip s = rev (dropWhile isspace_char (rev s))"

text \<open>\<open>str.strip\<close> with no argument.\<close>

definition strip :: "string \<Rightarrow> string" where
  "strip s = rev (dropWhile isspace_char (rev (dropWhile isspace_char s)))"

subsection \<open>The metadata row\<close>

text \<open>
  One row of \<open>metadata.csv\<close> as \<open>csv.DictReader\<close> yields it, with the columns the
  module reads: \<open>row["sha"]\<close> is \<open>sha row\<close>, and so on. An empty cell is the empty
  string.
\<close>

record metadata =
  sha :: string
  source_x :: string
  publish_time :: string
  journal :: string
  authors :: string
  title :: string
  doi :: string

subsection \<open>\<open>getReference\<close>\<close>

definition getReference :: "metadata \<Rightarrow> string" where
  "getReference row =
     (let text = doi row in
      if text \<noteq> [] \<and> \<not> startswith text ''http'' \<and> \<not> startswith text ''doi.org''
      then ''https://doi.org/'' @ text
      else text)"

subsection \<open>\<open>getDate\<close>\<close>

text \<open>
  \<open>dateutil.parser.parse\<close> is a library function: \<open>getDate\<close> takes it as the
  parameter \<open>parse\<close>. The bare \<open>except\<close> turns every exception of the \<open>try\<close> block
  into \<open>None\<close>.
\<close>

definition getDate :: "(string \<Rightarrow> exn + datetime) \<Rightarrow> metadata \<Rightarrow> datetime option" where
  "getDate parse row =
     (let date = publish_time row in
      if date \<noteq> [] then
        (let date' = (if isdigit date \<and> length date = 4 then date @ ''-01-01'' else date)
         in case parse date' of Inl e \<Rightarrow> None | Inr d \<Rightarrow> Some d)
      else None)"

subsection \<open>\<open>getId\<close>\<close>

text \<open>
  \<open>str.encode("utf-8")\<close> on U+0000..U+00FF: one byte below U+0080, two bytes from
  there on.
\<close>

type_synonym byte = "8 word"
type_synonym u32 = "32 word"

definition utf8_char :: "char \<Rightarrow> byte list" where
  "utf8_char c = (let n = (of_char c :: nat) in
     if n < 128 then [of_nat n] else [of_nat (192 + n div 64), of_nat (128 + n mod 64)])"

definition utf8_encode :: "string \<Rightarrow> byte list" where
  "utf8_encode s = concat (map utf8_char s)"

text \<open>
  \<open>hashlib.sha1\<close> is SHA-1 as FIPS 180-4 defines it: the message is padded to a
  multiple of 64 bytes, each block of sixteen big-endian words is expanded to eighty, and
  eighty rounds update five words of state.
\<close>

definition rotl :: "nat \<Rightarrow> u32 \<Rightarrow> u32" where
  "rotl n x = push_bit n x OR drop_bit (32 - n) x"

definition be64 :: "64 word \<Rightarrow> byte list" where
  "be64 n = [ucast (drop_bit 56 n), ucast (drop_bit 48 n), ucast (drop_bit 40 n),
             ucast (drop_bit 32 n), ucast (drop_bit 24 n), ucast (drop_bit 16 n),
             ucast (drop_bit 8 n), ucast n]"

definition sha1_pad :: "byte list \<Rightarrow> byte list" where
  "sha1_pad m = m @ [0x80] @ replicate ((119 - length m mod 64) mod 64) 0
                  @ be64 (of_nat (8 * length m))"

fun be_words :: "byte list \<Rightarrow> u32 list" where
  "be_words (a # b # c # d # rest) =
     (push_bit 24 (ucast a) OR push_bit 16 (ucast b) OR push_bit 8 (ucast c) OR ucast d)
       # be_words rest"
| "be_words _ = []"

text \<open>The message schedule, newest word first while it grows.\<close>

fun sha1_schedule :: "nat \<Rightarrow> u32 list \<Rightarrow> u32 list" where
  "sha1_schedule 0 rw = rev rw"
| "sha1_schedule (Suc n) rw =
     sha1_schedule n (rotl 1 (rw ! 2 XOR rw ! 7 XOR rw ! 13 XOR rw ! 15) # rw)"

definition sha1_f :: "nat \<Rightarrow> u32 \<Rightarrow> u32 \<Rightarrow> u32 \<Rightarrow> u32" where
  "sha1_f t b c d =
     (if t < 20 then (b AND c) OR (NOT b AND d)
      else if t < 40 then b XOR c XOR d
      else if t < 60 then (b AND c) OR (b AND d) OR (c AND d)
      else b XOR c XOR d)"

definition sha1_k :: "nat \<Rightarrow> u32" where
  "sha1_k t =
     (if t < 20 then 0x5A827999 else if t < 40 then 0x6ED9EBA1
      else if t < 60 then 0x8F1BBCDC else 0xCA62C1D6)"

type_synonym sha1_state = "u32 \<times> u32 \<times> u32 \<times> u32 \<times> u32"

fun sha1_rounds :: "nat \<Rightarrow> u32 list \<Rightarrow> sha1_state \<Rightarrow> sha1_state" where
  "sha1_rounds t [] s = s"
| "sha1_rounds t (w # ws) (a, b, c, d, e) =
     sha1_rounds (t + 1) ws
       (rotl 5 a + sha1_f t b c d + e + sha1_k t + w, a, rotl 30 b, c, d)"

definition sha1_block :: "sha1_state \<Rightarrow> u32 list \<Rightarrow> sha1_state" where
  "sha1_block s ws =
     (case s of (h0, h1, h2, h3, h4) \<Rightarrow>
        (case sha1_rounds 0 (sha1_schedule 64 (rev ws)) s of
           (a, b, c, d, e) \<Rightarrow> (h0 + a, h1 + b, h2 + c, h3 + d, h4 + e)))"

function sha1_blocks :: "sha1_state \<Rightarrow> u32 list \<Rightarrow> sha1_state" where
  "sha1_blocks s ws =
     (if length ws < 16 then s else sha1_blocks (sha1_block s (take 16 ws)) (drop 16 ws))"
  by pat_completeness auto
termination
  by (relation "measure (\<lambda>(s, ws). length ws)") auto

definition sha1 :: "byte list \<Rightarrow> sha1_state" where
  "sha1 m = sha1_blocks (0x67452301, 0xEFCDAB89, 0x98BADCFE, 0x10325476, 0xC3D2E1F0)
              (be_words (sha1_pad m))"

definition hex_digit :: "u32 \<Rightarrow> char" where
  "hex_digit x = ''0123456789abcdef'' ! unat (x AND 15)"

definition hex32 :: "u32 \<Rightarrow> string" where
  "hex32 w = [hex_digit (drop_bit 28 w), hex_digit (drop_bit 24 w), hex_digit (drop_bit 20 w),
              hex_digit (drop_bit 16 w), hex_digit (drop_bit 12 w), hex_digit (drop_bit 8 w),
              hex_digit (drop_bit 4 w), hex_digit w]"

definition hexdigest :: "sha1_state \<Rightarrow> string" where
  "hexdigest s =
     (case s of (a, b, c, d, e) \<Rightarrow> hex32 a @ hex32 b @ hex32 c @ hex32 d @ hex32 e)"

definition getId :: "metadata \<Rightarrow> string" where
  "getId row =
     (let uid = sha row in
      if uid = [] then hexdigest (sha1 (utf8_encode (title row))) else uid)"

subsection \<open>\<open>getAuthors\<close>\<close>

text \<open>
  The regular expressions this module needs: a sequence of pieces, each a character
  class taken once, as often as possible (\<open>*\<close>) or as seldom as possible (\<open>*?\<close>); a
  piece may lie inside the capturing group.
\<close>

datatype cclass = Lit char | NotLit char | Space

fun cmatch :: "cclass \<Rightarrow> char \<Rightarrow> bool" where
  "cmatch (Lit a) c = (c = a)"
| "cmatch (NotLit a) c = (c \<noteq> a)"
| "cmatch Space c = isspace_char c"

datatype quant = Once | Greedy | Lazy

datatype piece = Piece cclass quant bool

text \<open>
  Matching at the start of the input, by backtracking in the order of \<open>re\<close>: a greedy
  star first tries one more character, a lazy star first tries the rest of the pattern.
  The result is the text of the group and the input left after the match.
\<close>

fun rmatch :: "piece list \<Rightarrow> string \<Rightarrow> (string \<times> string) option" where
  "rmatch [] s = Some ([], s)"
| "rmatch (Piece c Once cap # ps) [] = None"
| "rmatch (Piece c Once cap # ps) (x # xs) =
     (if cmatch c x then
        (case rmatch ps xs of
           None \<Rightarrow> None
         | Some (g, r) \<Rightarrow> Some (if cap then x # g else g, r))
      else None)"
| "rmatch (Piece c Greedy cap # ps) [] = rmatch ps []"
| "rmatch (Piece c Greedy cap # ps) (x # xs) =
     (if cmatch c x then
        (case rmatch (Piece c Greedy cap # ps) xs of
           None \<Rightarrow> rmatch ps (x # xs)
         | Some (g, r) \<Rightarrow> Some (if cap then x # g else g, r))
      else rmatch ps (x # xs))"
| "rmatch (Piece c Lazy cap # ps) [] = rmatch ps []"
| "rmatch (Piece c Lazy cap # ps) (x # xs) =
     (case rmatch ps (x # xs) of
        Some m \<Rightarrow> Some m
      | None \<Rightarrow>
          (if cmatch c x then
             (case rmatch (Piece c Lazy cap # ps) xs of
                None \<Rightarrow> None
              | Some (g, r) \<Rightarrow> Some (if cap then x # g else g, r))
           else None))"

text \<open>
  \<open>re.findall\<close> for a pattern with one group: the group's text of every match, left to
  right, each search starting where the last match ended. A match of a pattern that
  begins with a literal is never empty; after an empty match the search moves on by one
  character.
\<close>

function findall :: "piece list \<Rightarrow> string \<Rightarrow> string list" where
  "findall ps s =
     (case rmatch ps s of
        None \<Rightarrow> (case s of [] \<Rightarrow> [] | x # xs \<Rightarrow> findall ps xs)
      | Some (g, r) \<Rightarrow>
          (if length r < length s then g # findall ps r
           else g # (case s of [] \<Rightarrow> [] | x # xs \<Rightarrow> findall ps xs)))"
  by pat_completeness auto
termination
  by (relation "measure (\<lambda>(ps, s). length s)") auto

text \<open>The pattern \<open>'\s*([^']*?)\s*'\<close>.\<close>

definition authors_pattern :: "piece list" where
  "authors_pattern =
     [Piece (Lit (CHR 0x27)) Once False, Piece Space Greedy False,
      Piece (NotLit (CHR 0x27)) Lazy True, Piece Space Greedy False,
      Piece (Lit (CHR 0x27)) Once False]"

definition getAuthors :: "metadata \<Rightarrow> string" where
  "getAuthors row =
     (let a = authors row in
      if a \<noteq> [] \<and> str_contains a ''[''
      then join ''; '' (findall authors_pattern a)
      else a)"

text \<open>
  What the specification calls the quoted substrings of a value: the text between the
  first and the second quote, between the third and the fourth, and so on, each without
  the white space around it.
\<close>

function quoted :: "string \<Rightarrow> string list" where
  "quoted s =
     (case dropWhile (\<lambda>c. c \<noteq> CHR 0x27) s of
        [] \<Rightarrow> []
      | q # rest \<Rightarrow>
          (case dropWhile (\<lambda>c. c \<noteq> CHR 0x27) rest of
             [] \<Rightarrow> []
           | q' # after \<Rightarrow> strip (takeWhile (\<lambda>c. c \<noteq> CHR 0x27) rest) # quoted after))"
  by pat_completeness auto
termination
proof (relation "measure length")
  show "wf (measure length)" by simp
next
  fix s :: string and q rest q' after
  assume a: "dropWhile (\<lambda>c. c \<noteq> CHR 0x27) s = q # rest"
    and b: "dropWhile (\<lambda>c. c \<noteq> CHR 0x27) rest = q' # after"
  have "length (q' # after) \<le> length rest"
    using length_dropWhile_le [of "\<lambda>c. c \<noteq> CHR 0x27" rest] b by simp
  moreover have "length (q # rest) \<le> length s"
    using length_dropWhile_le [of "\<lambda>c. c \<noteq> CHR 0x27" s] a by simp
  ultimately show "(after, s) \<in> measure length" by simp
qed

subsection \<open>\<open>getTags\<close>\<close>

definition keywords_getTags :: "string list" where
  "keywords_getTags = [''2019-ncov'', ''covid-19'', ''sars-cov-2'']"

text \<open>
  The loop of \<open>getTags\<close>, with the variable \<open>tags\<close> passed along. \<open>text.lower()\<close>
  raises AttributeError for a section that is not a string.
\<close>

fun getTags_loop :: "pyval list \<Rightarrow> pyval \<Rightarrow> exn + pyval" where
  "getTags_loop [] tags = Inr tags"
| "getTags_loop (PStr text # rest) tags =
     getTags_loop rest
       (if list_ex (\<lambda>x. str_contains (lower text) x) keywords_getTags then PStr ''COVID-19'' else tags)"
| "getTags_loop (v # rest) tags = Inl (Raise AttributeError ''object has no attribute lower'')"

definition getTags :: "pyval list \<Rightarrow> exn + pyval" where
  "getTags sections = getTags_loop sections PNone"

subsection \<open>\<open>values\<close>\<close>

text \<open>
  \<open>int(value)\<close>: an integer is itself, a Boolean is 0 or 1, a string is read as a
  decimal literal (white space around it, a sign, digits with single underscores between
  them), anything else is a TypeError. The limit Python 3.11 puts on the number of digits
  is left out.
\<close>

definition isdecimal_char :: "char \<Rightarrow> bool" where
  "isdecimal_char c = (48 \<le> (of_char c :: nat) \<and> (of_char c :: nat) \<le> 57)"

fun int_digits :: "bool \<Rightarrow> nat \<Rightarrow> string \<Rightarrow> nat option" where
  "int_digits prev acc [] = (if prev then Some acc else None)"
| "int_digits prev acc (c # cs) =
     (if isdecimal_char c then int_digits True (10 * acc + (of_char c - 48)) cs
      else if c = CHR ''_'' \<and> prev then int_digits False acc cs
      else None)"

definition int_literal :: "string \<Rightarrow> int option" where
  "int_literal s =
     (case strip s of
        [] \<Rightarrow> None
      | c # cs \<Rightarrow>
          (if c = CHR ''-'' then map_option (\<lambda>n. - int n) (int_digits False 0 cs)
           else if c = CHR ''+'' then map_option int (int_digits False 0 cs)
           else map_option int (int_digits False 0 (c # cs))))"

fun py_int :: "pyval \<Rightarrow> exn + int" where
  "py_int (PInt i) = Inr i"
| "py_int (PBool b) = Inr (if b then 1 else 0)"
| "py_int (PStr s) =
     (case int_literal s of
        None \<Rightarrow> Inl (Raise ValueError ''invalid literal for int() with base 10'')
      | Some i \<Rightarrow> Inr i)"
| "py_int v = Inl (Raise TypeError ''int() argument must be a string or a number'')"

text \<open>
  A table schema is a Python dict from column name to type descriptor, kept as an
  association list in the dict's order. The loop of \<open>values\<close> runs over
  \<open>enumerate(columns)\<close> with the index \<open>x\<close> and the list \<open>values\<close> built so far.
\<close>

type_synonym schema = "(string \<times> string) list"

fun values_loop :: "schema \<Rightarrow> pyval list \<Rightarrow> string list \<Rightarrow> nat \<Rightarrow> pyval list \<Rightarrow> exn + pyval list" where
  "values_loop table row [] x vals = Inr vals"
| "values_loop table row (column # columns) x vals =
     (if length row \<le> x then Inl (Raise IndexError ''tuple index out of range'')
      else
        (let v = row ! x in
         case map_of table column of
           None \<Rightarrow> Inl (Raise KeyError column)
         | Some ctype \<Rightarrow>
             (if startswith ctype ''INTEGER'' then
                (if truthy v then
                   (case py_int v of
                      Inl e \<Rightarrow> Inl e
                    | Inr i \<Rightarrow> values_loop table row columns (x + 1) (vals @ [PInt i]))
                 else values_loop table row columns (x + 1) (vals @ [PInt 0]))
              else if ctype = ''BOOLEAN'' then
                values_loop table row columns (x + 1)
                  (vals @ [PInt (if v = PStr ''TRUE'' then 1 else 0)])
              else values_loop table row columns (x + 1) (vals @ [v]))))"

definition values_row :: "schema \<Rightarrow> pyval list \<Rightarrow> string list \<Rightarrow> exn + pyval list" where
  "values_row table row columns = values_loop table row columns 0 []"

subsection \<open>The database connection\<close>

text \<open>
  The \<open>sqlite3\<close> connection is the environment of the module. Its model keeps the
  tables that exist, the rows inserted through the connection in the order of their
  insertion (each with the name of its table, the values in the order of the table's
  columns), and the rows a commit has made durable.
\<close>

record db =
  tables :: "(string \<times> schema) list"
  inserted :: "(string \<times> pyval list) list"
  durable :: "(string \<times> pyval list) list"

definition table_rows :: "db \<Rightarrow> string \<Rightarrow> pyval list list" where
  "table_rows d name = map snd (filter (\<lambda>(n, r). n = name) (inserted d))"

datatype statement =
    CreateTable string schema
  | InsertInto string "string list" "string list"

text \<open>The text before and after the first occurrence of a separator.\<close>

fun split_at :: "string \<Rightarrow> string \<Rightarrow> (string \<times> string) option" where
  "split_at sep [] = (if sep = [] then Some ([], []) else None)"
| "split_at sep (c # cs) =
     (if startswith (c # cs) sep then Some ([], drop (length sep) (c # cs))
      else map_option (\<lambda>(a, b). (c # a, b)) (split_at sep cs))"

text \<open>
  \<open>s.split(sep)\<close> for a non-empty separator; \<open>skip\<close> counts the characters of a
  separator still to pass over, \<open>acc\<close> is the current part, reversed.
\<close>

fun split_str :: "string \<Rightarrow> nat \<Rightarrow> string \<Rightarrow> string \<Rightarrow> string list" where
  "split_str sep skip acc [] = [rev acc]"
| "split_str sep (Suc k) acc (c # cs) = split_str sep k acc cs"
| "split_str sep 0 acc (c # cs) =
     (if sep \<noteq> [] \<and> startswith (c # cs) sep
      then rev acc # split_str sep (length sep - 1) [] cs
      else split_str sep 0 (c # acc) cs)"

definition ident_char :: "char \<Rightarrow> bool" where
  "ident_char c = (let n = (of_char c :: nat) in
     (48 \<le> n \<and> n \<le> 57) \<or> (65 \<le> n \<and> n \<le> 90) \<or> (97 \<le> n \<and> n \<le> 122) \<or> n = 95)"

definition is_identifier :: "string \<Rightarrow> bool" where
  "is_identifier s = (s \<noteq> [] \<and> list_all ident_char s \<and> \<not> isdecimal_char (hd s))"

definition parse_column :: "string \<Rightarrow> (string \<times> string) option" where
  "parse_column f =
     (case split_at '' '' f of
        None \<Rightarrow> (if is_identifier f then Some (f, []) else None)
      | Some (c, t) \<Rightarrow> (if is_identifier c then Some (c, t) else None))"

definition parse_create :: "string \<Rightarrow> statement option" where
  "parse_create rest =
     (case split_at '' ('' rest of
        None \<Rightarrow> None
      | Some (name, r) \<Rightarrow>
          (if is_identifier name \<and> r \<noteq> [] \<and> last r = CHR '')'' then
             (case those (map parse_column (split_str '', '' 0 [] (butlast r))) of
                None \<Rightarrow> None
              | Some cols \<Rightarrow> Some (CreateTable name cols))
           else None))"

definition parse_insert :: "string \<Rightarrow> statement option" where
  "parse_insert rest =
     (case split_at '' ('' rest of
        None \<Rightarrow> None
      | Some (name, r) \<Rightarrow>
          (case split_at '') VALUES ('' r of
             None \<Rightarrow> None
           | Some (cols, r') \<Rightarrow>
               (if is_identifier name \<and> r' \<noteq> [] \<and> last r' = CHR '')''
                   \<and> list_all is_identifier (split_str '', '' 0 [] cols)
                   \<and> list_all (\<lambda>p. p = ''?'') (split_str '', '' 0 [] (butlast r'))
                then Some (InsertInto name (split_str '', '' 0 [] cols)
                             (split_str '', '' 0 [] (butlast r')))
                else None)))"

text \<open>
  The connection reads the two statements this module sends; any other text is a syntax
  error. Column constraints are not read beyond \<open>PRIMARY KEY\<close>.
\<close>

definition parse_sql :: "string \<Rightarrow> statement option" where
  "parse_sql text =
     (if startswith text ''CREATE TABLE IF NOT EXISTS ''
      then parse_create (drop (length ''CREATE TABLE IF NOT EXISTS '') text)
      else if startswith text ''INSERT INTO ''
      then parse_insert (drop (length ''INSERT INTO '') text)
      else None)"

text \<open>The value a stored row has in a column of its table.\<close>

definition cell :: "schema \<Rightarrow> pyval list \<Rightarrow> string \<Rightarrow> pyval" where
  "cell sch r c = (case map_of (zip (map fst sch) r) c of None \<Rightarrow> PNone | Some v \<Rightarrow> v)"

definition key_columns :: "schema \<Rightarrow> string list" where
  "key_columns sch = map fst (filter (\<lambda>(c, t). str_contains t ''PRIMARY KEY'') sch)"

text \<open>
  A new row breaks the uniqueness of a key column when a row of the table already has
  its value there. A NULL key conflicts with nothing (\<open>values\<close> never binds one to an
  INTEGER column).
\<close>

definition key_conflict :: "schema \<Rightarrow> pyval list list \<Rightarrow> pyval list \<Rightarrow> string option" where
  "key_conflict sch old new =
     (case filter (\<lambda>c. cell sch new c \<noteq> PNone \<and> list_ex (\<lambda>r. cell sch r c = cell sch new c) old)
             (key_columns sch) of
        [] \<Rightarrow> None
      | c # cs \<Rightarrow> Some c)"

fun bindable :: "pyval \<Rightarrow> bool" where
  "bindable (PList xs) = False"
| "bindable (PDict kvs) = False"
| "bindable v = True"

text \<open>
  \<open>db.execute(sql, parameters)\<close>. \<open>CREATE TABLE IF NOT EXISTS\<close> leaves an existing
  table alone. \<open>INSERT\<close> needs the table and its columns, as many parameters as
  placeholders, values SQLite can bind, and a key that is not taken; the values are
  stored as they are bound.
\<close>

definition execute :: "db \<Rightarrow> string \<Rightarrow> pyval list \<Rightarrow> exn + db" where
  "execute d sql params =
     (case parse_sql sql of
        None \<Rightarrow> Inl (Raise OperationalError ''syntax error'')
      | Some (CreateTable name sch) \<Rightarrow>
          (if params \<noteq> [] then
             Inl (Raise ProgrammingError ''Incorrect number of bindings supplied'')
           else if map_of (tables d) name \<noteq> None then Inr d
           else if \<not> distinct (map (lower \<circ> fst) sch) then
             Inl (Raise OperationalError ''duplicate column name'')
           else Inr (d\<lparr>tables := tables d @ [(name, sch)]\<rparr>))
      | Some (InsertInto name cols marks) \<Rightarrow>
          (case map_of (tables d) name of
             None \<Rightarrow> Inl (Raise OperationalError (''no such table: '' @ name))
           | Some sch \<Rightarrow>
               (if \<not> list_all (\<lambda>c. c \<in> set (map fst sch)) cols then
                  Inl (Raise OperationalError (''table '' @ name @ '' has no such column''))
                else if length marks \<noteq> length cols then
                  Inl (Raise OperationalError ''values for columns'')
                else if length params \<noteq> length marks then
                  Inl (Raise ProgrammingError ''Incorrect number of bindings supplied'')
                else if \<not> list_all bindable params then
                  Inl (Raise ProgrammingError ''Error binding parameter'')
                else
                  (let new = map (\<lambda>(c, t). case map_of (zip cols params) c of
                                             None \<Rightarrow> PNone | Some v \<Rightarrow> v) sch
                   in case key_conflict sch (table_rows d name) new of
                        Some c \<Rightarrow>
                          Inl (Raise IntegrityError
                                 (''UNIQUE constraint failed: '' @ name @ ''.'' @ c))
                      | None \<Rightarrow> Inr (d\<lparr>inserted := inserted d @ [(name, new)]\<rparr>)))))"


subsection \<open>\<open>create\<close> and \<open>insert\<close>\<close>

text \<open>
  What the module prints, by the \<open>print\<close> call that writes the line and the values it
  formats.
\<close>

datatype line =
    Building string
  | Printed string
  | ErrorInserting pyval exn
  | InsertedArticles int
  | TotalRows int

record world =
  conn :: db
  stdout :: "line list"

definition ARTICLES :: schema where
  "ARTICLES =
     [(''Id'', ''TEXT PRIMARY KEY''), (''Source'', ''TEXT''), (''Published'', ''DATETIME''),
      (''Publication'', ''TEXT''), (''Authors'', ''TEXT''), (''Title'', ''TEXT''),
      (''Tags'', ''TEXT''), (''Reference'', ''TEXT'')]"

definition SECTIONS :: schema where
  "SECTIONS =
     [(''Id'', ''INTEGER PRIMARY KEY''), (''Article'', ''TEXT''), (''Text'', ''TEXT''),
      (''Tags'', ''TEXT'')]"


definition INSERT_ROW :: "string \<Rightarrow> string \<Rightarrow> string \<Rightarrow> string" where
  "INSERT_ROW table columns vals =
     ''INSERT INTO '' @ table @ '' ('' @ columns @ '') VALUES ('' @ vals @ '')''"




definition insert_sql :: "schema \<Rightarrow> string \<Rightarrow> string" where
  "insert_sql table name =
     (let columns = map fst table;
          marks = concat (replicate (length columns) ''?, '')
      in INSERT_ROW name (join '', '' columns) (take (length marks - 2) marks))"

text \<open>
  \<open>insert\<close>: \<open>values\<close> and \<open>db.execute\<close> run inside the \<open>try\<close>; the handler prints
  \<open>row[0]\<close> and the exception, and \<open>row[0]\<close> raises IndexError for an empty row.
\<close>

definition insert_row :: "world \<Rightarrow> schema \<Rightarrow> string \<Rightarrow> pyval list \<Rightarrow> world \<times> exn option" where
  "insert_row w table name row =
     (let columns = map fst table;
          stmt = insert_sql table name;
          attempt = (case values_row table row columns of
                       Inl ex \<Rightarrow> Inl ex
                     | Inr vals \<Rightarrow> execute (conn w) stmt vals)
      in case attempt of
           Inr d \<Rightarrow> (w\<lparr>conn := d\<rparr>, None)
         | Inl ex \<Rightarrow>
             (case row of
                [] \<Rightarrow> (w, Some (Raise IndexError ''tuple index out of range''))
              | key # rest \<Rightarrow> (w\<lparr>stdout := stdout w @ [ErrorInserting key ex]\<rparr>, None)))"

subsection \<open>\<open>read\<close>\<close>

text \<open>\<open>os.path.join\<close> on two parts.\<close>

definition path_join :: "string \<Rightarrow> string \<Rightarrow> string" where
  "path_join a b =
     (if startswith b ''/'' then b
      else if a = [] \<or> last a = CHR ''/'' then a @ b
      else a @ ''/'' @ b)"

text \<open>
  The files under the input directory: a path that exists is mapped to what opening it
  and \<open>json.load\<close> give, the parsed document or the exception raised (a file that is
  not JSON, a directory, a file that cannot be read).
\<close>

type_synonym files = "string \<Rightarrow> (exn + pyval) option"

text \<open>\<open>obj[key]\<close> for a string key, and the elements \<open>for row in obj\<close> runs over.\<close>

fun subscript :: "pyval \<Rightarrow> string \<Rightarrow> exn + pyval" where
  "subscript (PDict kvs) key =
     (case map_of kvs key of None \<Rightarrow> Inl (Raise KeyError key) | Some v \<Rightarrow> Inr v)"
| "subscript (PList xs) key = Inl (Raise TypeError ''list indices must be integers or slices'')"
| "subscript (PStr s) key = Inl (Raise TypeError ''string indices must be integers'')"
| "subscript v key = Inl (Raise TypeError ''object is not subscriptable'')"

fun iterate :: "pyval \<Rightarrow> exn + pyval list" where
  "iterate (PList xs) = Inr xs"
| "iterate (PDict kvs) = Inr (map (\<lambda>(k, v). PStr k) kvs)"
| "iterate (PStr s) = Inr (map (\<lambda>c. PStr [c]) s)"
| "iterate v = Inl (Raise TypeError ''object is not iterable'')"

text \<open>The list comprehension \<open>[row["text"] for row in ...]\<close>: the first failure ends it.\<close>

fun texts :: "pyval list \<Rightarrow> exn + pyval list" where
  "texts [] = Inr []"
| "texts (row # rows) =
     (case subscript row ''text'' of
        Inl e \<Rightarrow> Inl e
      | Inr t \<Rightarrow> (case texts rows of Inl e \<Rightarrow> Inl e | Inr ts \<Rightarrow> Inr (t # ts)))"

definition read :: "files \<Rightarrow> string \<Rightarrow> string \<Rightarrow> exn + pyval list" where
  "read fs directory uid =
     (if uid \<noteq> [] then
        (let article = path_join (path_join directory ''articles'') (uid @ ''.json'') in
         case fs article of
           None \<Rightarrow> Inr []
         | Some (Inl e) \<Rightarrow> Inl e
         | Some (Inr data) \<Rightarrow>
             (case subscript data ''body_text'' of
                Inl e \<Rightarrow> Inl e
              | Inr body \<Rightarrow> (case iterate body of Inl e \<Rightarrow> Inl e | Inr rows \<Rightarrow> texts rows)))
      else Inr [])"

subsection \<open>\<open>run\<close>\<close>

text \<open>The inner loop of \<open>run\<close>: one \<open>sections\<close> row per text, \<open>sid\<close> counted up.\<close>

fun insert_sections :: "world \<Rightarrow> string \<Rightarrow> pyval \<Rightarrow> int \<Rightarrow> pyval list \<Rightarrow> (world \<times> int) \<times> exn option" where
  "insert_sections w uid tags sid [] = ((w, sid), None)"
| "insert_sections w uid tags sid (text # rest) =
     (case insert_row w SECTIONS ''sections'' [PInt sid, PStr uid, text, tags] of
        (w', Some e) \<Rightarrow> ((w', sid), Some e)
      | (w', None) \<Rightarrow> insert_sections w' uid tags (sid + 1) rest)"

text \<open>
  The body of the outer loop, for one metadata row; the state is the world and the
  counters \<open>index\<close> and \<open>sid\<close>.
\<close>

definition run_row ::
  "(string \<Rightarrow> exn + datetime) \<Rightarrow> files \<Rightarrow> string \<Rightarrow> world \<times> int \<times> int \<Rightarrow> metadata
    \<Rightarrow> (world \<times> int \<times> int) \<times> exn option" where
  "run_row parse fs directory st row =
     (case st of (w, index, sid) \<Rightarrow>
        (let uid = getId row;
             date = (case getDate parse row of None \<Rightarrow> PNone | Some d \<Rightarrow> PDate d)
         in case read fs directory uid of
              Inl e \<Rightarrow> (st, Some e)
            | Inr body \<Rightarrow>
                (let sections = PStr (title row) # body in
                 case getTags sections of
                   Inl e \<Rightarrow> (st, Some e)
                 | Inr tags \<Rightarrow>
                     (let article = [PStr uid, PStr (source_x row), date, PStr (journal row),
                                     PStr (getAuthors row), PStr (title row), tags,
                                     PStr (getReference row)]
                      in case insert_row w ARTICLES ''articles'' article of
                           (w1, Some e) \<Rightarrow> ((w1, index, sid), Some e)
                         | (w1, None) \<Rightarrow>
                             (let index' = index + 1;
                                  w2 = (if index' mod 1000 = 0
                                        then w1\<lparr>stdout := stdout w1 @ [InsertedArticles index']\<rparr>
                                        else w1)
                              in case insert_sections w2 uid tags sid sections of
                                   ((w3, sid'), r) \<Rightarrow> ((w3, index', sid'), r))))))"




subsection \<open>Sample inputs\<close>

definition row_doi :: metadata where
  "row_doi = \<lparr>sha = ''abc'', source_x = ''PMC'', publish_time = ''2020'', journal = ''The Lancet'',
              authors = ''Smith'', title = ''COVID Study'', doi = ''10.1234/xyz''\<rparr>"

text \<open>A date parser that reads one date and rejects everything else.\<close>

definition parse_2020 :: "string \<Rightarrow> exn + datetime" where
  "parse_2020 s =
     (if s = ''2020-01-01'' then Inr (DateTime 2020 1 1 0 0 0)
      else Inl (Raise ParserError ''Unknown string format''))"

subsection \<open>The rows \<open>run\<close> writes\<close>

text \<open>
  The \<open>sections\<close> rows of one article, in the order of the list of texts, with the ids
  counted up from \<open>sid\<close>.
\<close>

fun section_rows :: "string \<Rightarrow> pyval \<Rightarrow> int \<Rightarrow> pyval list \<Rightarrow> (string \<times> pyval list) list" where
  "section_rows uid tags sid [] = []"
| "section_rows uid tags sid (text # rest) =
     (''sections'', [PInt sid, PStr uid, text, tags]) # section_rows uid tags (sid + 1) rest"

text \<open>The \<open>articles\<close> row of a metadata row with the tags \<open>tags\<close>.\<close>

definition article_row :: "(string \<Rightarrow> exn + datetime) \<Rightarrow> metadata \<Rightarrow> pyval \<Rightarrow> pyval list" where
  "article_row parse row tags =
     [PStr (getId row), PStr (source_x row),
      (case getDate parse row of None \<Rightarrow> PNone | Some d \<Rightarrow> PDate d),
      PStr (journal row), PStr (getAuthors row), PStr (title row), tags,
      PStr (getReference row)]"

text \<open>
  The state in which the loop of \<open>run\<close> works: both tables exist with their schemas,
  and the ids of the \<open>sections\<close> rows are \<open>0, 1, ...\<close> up to \<open>sid\<close>, in the order of
  insertion.
\<close>

definition streaming :: "world \<Rightarrow> int \<Rightarrow> bool" where
  "streaming w sid \<longleftrightarrow>
     map_of (tables (conn w)) ''articles'' = Some ARTICLES
     \<and> map_of (tables (conn w)) ''sections'' = Some SECTIONS
     \<and> 0 \<le> sid
     \<and> map (\<lambda>r. cell SECTIONS r ''Id'') (table_rows (conn w) ''sections'')
          = map (\<lambda>k. PInt (int k)) [0..<nat sid]"

text \<open>An \<open>articles\<close> row with the id \<open>uid\<close> is in the table.\<close>

definition taken :: "world \<Rightarrow> string \<Rightarrow> bool" where
  "taken w uid = list_ex (\<lambda>r. cell ARTICLES r ''Id'' = PStr uid) (table_rows (conn w) ''articles'')"





definition files_abc :: files where
  "files_abc =
     [''/data/articles/abc.json'' \<mapsto>
        Inr (PDict [(''body_text'',
               PList [PDict [(''text'', PStr ''First paragraph on SARS-CoV-2'')],
                      PDict [(''text'', PStr ''Second paragraph'')]])])]"


text \<open>The world after \<open>run\<close> has processed \<open>row_doi\<close> in the directory \<open>files_abc\<close>.\<close>

definition world_one :: world where
  "world_one =
     \<lparr>conn = \<lparr>tables = [(''articles'', ARTICLES), (''sections'', SECTIONS)],
              inserted = (''articles'', article_row parse_2020 row_doi (PStr ''COVID-19''))
                # section_rows ''abc'' (PStr ''COVID-19'') 0
                    [PStr ''COVID Study'', PStr ''First paragraph on SARS-CoV-2'',
                     PStr ''Second paragraph''],
              durable = []\<rparr>,
      stdout = [Building ''/data'']\<rparr>"


text \<open>
  The conversion of one value by the type descriptor of its column, as the specification
  words it: an integer column takes an empty or missing value to 0 and any other value to
  its integer conversion, a Boolean column takes the string \<open>TRUE\<close> to 1 and anything
  else to 0, any other column leaves the value as it is.
\<close>

definition coerce :: "string \<Rightarrow> pyval \<Rightarrow> exn + pyval" where
  "coerce ctype v =
     (if startswith ctype ''INTEGER'' then
        (if truthy v then (case py_int v of Inl e \<Rightarrow> Inl e | Inr i \<Rightarrow> Inr (PInt i))
         else Inr (PInt 0))
      else if ctype = ''BOOLEAN'' then Inr (PInt (if v = PStr ''TRUE'' then 1 else 0))
      else Inr v)"

section \<open>Properties\<close>

subsection \<open>Strings\<close>

lemma startswith_iff: "startswith s p \<longleftrightarrow> (\<exists>rest. s = p @ rest)"
proof
  assume "startswith s p"
  then have "s = p @ drop (length p) s"
    by (metis append_take_drop_id startswith_def)
  then show "\<exists>rest. s = p @ rest" ..
next
  assume "\<exists>rest. s = p @ rest"
  then show "startswith s p" by (auto simp: startswith_def)
qed

subsection \<open>The reference link\<close>

text \<open>
  Claim C8. \<open>getReference\<close> puts \<open>https://doi.org/\<close> in front of a DOI that is not
  empty and starts neither with \<open>http\<close> nor with \<open>doi.org\<close>; a DOI that starts with
  one of the two is returned as it is; an empty DOI gives an empty reference. The DOI
  \<open>10.1234/xyz\<close> becomes \<open>https://doi.org/10.1234/xyz\<close>.
\<close>

theorem getReference_spec:
  "(doi row \<noteq> [] \<and> \<not> (\<exists>rest. doi row = ''http'' @ rest) \<and> \<not> (\<exists>rest. doi row = ''doi.org'' @ rest)
      \<longrightarrow> getReference row = ''https://doi.org/'' @ doi row)
   \<and> ((\<exists>rest. doi row = ''http'' @ rest) \<or> (\<exists>rest. doi row = ''doi.org'' @ rest)
      \<longrightarrow> getReference row = doi row)
   \<and> (doi row = [] \<longrightarrow> getReference row = [])
   \<and> getReference (row\<lparr>doi := ''10.1234/xyz''\<rparr>) = ''https://doi.org/10.1234/xyz''"
proof -
  have a: "startswith (doi row) ''http'' \<longleftrightarrow> (\<exists>rest. doi row = ''http'' @ rest)"
    by (rule startswith_iff)
  have b: "startswith (doi row) ''doi.org'' \<longleftrightarrow> (\<exists>rest. doi row = ''doi.org'' @ rest)"
    by (rule startswith_iff)
  have c: "getReference (row\<lparr>doi := ''10.1234/xyz''\<rparr>) = ''https://doi.org/10.1234/xyz''"
    by (simp add: getReference_def startswith_def)
  show ?thesis
    unfolding a [symmetric] b [symmetric] using c
    by (simp add: getReference_def Let_def)
qed

theorem getReference_spec_witness:
  "getReference row_doi = ''https://doi.org/10.1234/xyz''
   \<and> getReference (row_doi\<lparr>doi := ''http://dx.doi.org/10.1/a''\<rparr>) = ''http://dx.doi.org/10.1/a''
   \<and> getReference (row_doi\<lparr>doi := []\<rparr>) = []"
proof -
  have h1: "doi row_doi \<noteq> [] \<and> \<not> (\<exists>rest. doi row_doi = ''http'' @ rest)
            \<and> \<not> (\<exists>rest. doi row_doi = ''doi.org'' @ rest)"
    by (simp add: row_doi_def)
  have 1: "getReference row_doi = ''https://doi.org/'' @ doi row_doi"
    using getReference_spec [of row_doi, THEN conjunct1] h1 by (rule mp)
  have h2: "(\<exists>rest. doi (row_doi\<lparr>doi := ''http://dx.doi.org/10.1/a''\<rparr>) = ''http'' @ rest)
            \<or> (\<exists>rest. doi (row_doi\<lparr>doi := ''http://dx.doi.org/10.1/a''\<rparr>) = ''doi.org'' @ rest)"
    by simp
  have 2: "getReference (row_doi\<lparr>doi := ''http://dx.doi.org/10.1/a''\<rparr>)
             = doi (row_doi\<lparr>doi := ''http://dx.doi.org/10.1/a''\<rparr>)"
    using getReference_spec [of "row_doi\<lparr>doi := ''http://dx.doi.org/10.1/a''\<rparr>",
        THEN conjunct2, THEN conjunct1] h2 by (rule mp)
  have h3: "doi (row_doi\<lparr>doi := []\<rparr>) = []" by simp
  have 3: "getReference (row_doi\<lparr>doi := []\<rparr>) = []"
    using getReference_spec [of "row_doi\<lparr>doi := []\<rparr>",
        THEN conjunct2, THEN conjunct2, THEN conjunct1] h3 by (rule mp)
  from 1 2 3 show ?thesis by (simp add: row_doi_def)
qed

subsection \<open>The publication date\<close>

text \<open>
  Claim C5. \<open>getDate\<close> appends \<open>-01-01\<close> to a publish time of four digits before it is
  parsed, so \<open>2020\<close> is parsed as \<open>2020-01-01\<close>; any other non-empty publish time is
  parsed as it is. Whenever the parser fails the result is no date, and an empty publish
  time gives no date as well. \<open>getDate\<close> returns a value for every parser and every
  row: it never raises.
\<close>

theorem getDate_spec:
  "(isdigit (publish_time row) \<and> length (publish_time row) = 4
      \<longrightarrow> getDate parse row
            = (case parse (publish_time row @ ''-01-01'') of Inl e \<Rightarrow> None | Inr d \<Rightarrow> Some d))
   \<and> (publish_time row \<noteq> [] \<and> \<not> (isdigit (publish_time row) \<and> length (publish_time row) = 4)
      \<longrightarrow> getDate parse row
            = (case parse (publish_time row) of Inl e \<Rightarrow> None | Inr d \<Rightarrow> Some d))
   \<and> (publish_time row = [] \<longrightarrow> getDate parse row = None)
   \<and> getDate parse (row\<lparr>publish_time := ''2020''\<rparr>)
        = (case parse ''2020-01-01'' of Inl e \<Rightarrow> None | Inr d \<Rightarrow> Some d)
   \<and> ((\<exists>e. parse ''not-a-date'' = Inl e)
      \<longrightarrow> getDate parse (row\<lparr>publish_time := ''not-a-date''\<rparr>) = None)"
proof -
  have y: "isdigit ''2020''"
    by (simp add: isdigit_def isdigit_char_def)
  have n: "\<not> isdigit ''not-a-date''"
    by (simp add: isdigit_def isdigit_char_def)
  have 1: "isdigit (publish_time row) \<and> length (publish_time row) = 4
      \<longrightarrow> getDate parse row
            = (case parse (publish_time row @ ''-01-01'') of Inl e \<Rightarrow> None | Inr d \<Rightarrow> Some d)"
    by (auto simp: getDate_def Let_def isdigit_def)
  have 2: "publish_time row \<noteq> [] \<and> \<not> (isdigit (publish_time row) \<and> length (publish_time row) = 4)
      \<longrightarrow> getDate parse row
            = (case parse (publish_time row) of Inl e \<Rightarrow> None | Inr d \<Rightarrow> Some d)"
    by (auto simp: getDate_def Let_def)
  have 3: "publish_time row = [] \<longrightarrow> getDate parse row = None"
    by (simp add: getDate_def)
  have 4: "getDate parse (row\<lparr>publish_time := ''2020''\<rparr>)
        = (case parse ''2020-01-01'' of Inl e \<Rightarrow> None | Inr d \<Rightarrow> Some d)"
    using y by (simp add: getDate_def)
  have 5: "(\<exists>e. parse ''not-a-date'' = Inl e)
      \<longrightarrow> getDate parse (row\<lparr>publish_time := ''not-a-date''\<rparr>) = None"
    using n by (auto simp: getDate_def)
  from 1 2 3 4 5 show ?thesis by blast
qed

theorem getDate_spec_witness:
  "getDate parse_2020 row_doi = Some (DateTime 2020 1 1 0 0 0)
   \<and> getDate parse_2020 (row_doi\<lparr>publish_time := ''not-a-date''\<rparr>) = None
   \<and> getDate parse_2020 (row_doi\<lparr>publish_time := []\<rparr>) = None"
proof -
  have h1: "isdigit (publish_time row_doi) \<and> length (publish_time row_doi) = 4"
    by (simp add: row_doi_def isdigit_def isdigit_char_def)
  have "getDate parse_2020 row_doi
          = (case parse_2020 (publish_time row_doi @ ''-01-01'') of
               Inl e \<Rightarrow> None | Inr d \<Rightarrow> Some d)"
    using getDate_spec [of row_doi parse_2020, THEN conjunct1] h1 by (rule mp)
  then have 1: "getDate parse_2020 row_doi = Some (DateTime 2020 1 1 0 0 0)"
    by (simp add: row_doi_def parse_2020_def)
  have h2: "\<exists>e. parse_2020 ''not-a-date'' = Inl e"
    by (simp add: parse_2020_def)
  have 2: "getDate parse_2020 (row_doi\<lparr>publish_time := ''not-a-date''\<rparr>) = None"
    using getDate_spec [of row_doi parse_2020, THEN conjunct2, THEN conjunct2,
        THEN conjunct2, THEN conjunct2] h2 by (rule mp)
  have h3: "publish_time (row_doi\<lparr>publish_time := []\<rparr>) = []" by simp
  have 3: "getDate parse_2020 (row_doi\<lparr>publish_time := []\<rparr>) = None"
    using getDate_spec [of "row_doi\<lparr>publish_time := []\<rparr>" parse_2020, THEN conjunct2,
        THEN conjunct2, THEN conjunct1] h3 by (rule mp)
  from 1 2 3 show ?thesis by simp
qed

subsection \<open>The authors\<close>

lemma quote_not_space: "\<not> isspace_char (CHR 0x27)"
  by (simp add: isspace_char_def)

lemma rmatch_tail:
  "rmatch [Piece Space Greedy False, Piece (Lit (CHR 0x27)) Once False] s =
     (case dropWhile isspace_char s of
        [] \<Rightarrow> None
      | x # after \<Rightarrow> if x = CHR 0x27 then Some ([], after) else None)"
proof (induction s)
  case Nil
  show ?case by simp
next
  case (Cons x xs)
  show ?case
  proof (cases "isspace_char x")
    case True
    then have "x \<noteq> CHR 0x27" using quote_not_space by auto
    with True Cons show ?thesis
      by (auto split: list.splits option.splits)
  next
    case False
    then show ?thesis by simp
  qed
qed

lemma rstrip_Cons:
  "rstrip (x # c) = (if list_all isspace_char (x # c) then [] else x # rstrip c)"
proof (cases "list_all isspace_char c")
  case True
  then have "dropWhile isspace_char (rev c) = []"
    by (simp add: list_all_iff)
  then show ?thesis
    using True by (simp add: rstrip_def dropWhile_append)
next
  case False
  then have "dropWhile isspace_char (rev c) \<noteq> []"
    by (simp add: list_all_iff)
  then show ?thesis
    using False by (auto simp: rstrip_def dropWhile_append list_all_iff)
qed

lemma dropWhile_space_quote:
  "dropWhile isspace_char s = CHR 0x27 # after \<Longrightarrow>
     list_all isspace_char (takeWhile (\<lambda>c. c \<noteq> CHR 0x27) s)
     \<and> dropWhile (\<lambda>c. c \<noteq> CHR 0x27) s = CHR 0x27 # after"
proof (induction s)
  case Nil
  then show ?case by simp
next
  case (Cons x xs)
  then show ?case using quote_not_space by (auto split: if_splits)
qed

lemma quote_after_spaces:
  "dropWhile (\<lambda>c. c \<noteq> CHR 0x27) s = q # after \<Longrightarrow>
   list_all isspace_char (takeWhile (\<lambda>c. c \<noteq> CHR 0x27) s) \<Longrightarrow>
   dropWhile isspace_char s = CHR 0x27 # after"
proof (induction s)
  case Nil
  then show ?case by simp
next
  case (Cons x xs)
  then show ?case using quote_not_space
    by (auto split: if_splits dest: hd_dropWhile)
qed

lemma lazy_step:
  "rmatch (Piece (NotLit (CHR 0x27)) Lazy True # ps) (x # xs) =
     (case rmatch ps (x # xs) of
        Some m \<Rightarrow> Some m
      | None \<Rightarrow>
          (if x \<noteq> CHR 0x27 then
             (case rmatch (Piece (NotLit (CHR 0x27)) Lazy True # ps) xs of
                None \<Rightarrow> None
              | Some (g, r) \<Rightarrow> Some (x # g, r))
           else None))"
  by (simp split: option.splits)

lemma rmatch_lazy:
  "rmatch [Piece (NotLit (CHR 0x27)) Lazy True, Piece Space Greedy False,
           Piece (Lit (CHR 0x27)) Once False] s =
     (case dropWhile (\<lambda>c. c \<noteq> CHR 0x27) s of
        [] \<Rightarrow> None
      | q # after \<Rightarrow> Some (rstrip (takeWhile (\<lambda>c. c \<noteq> CHR 0x27) s), after))"
proof (induction s)
  case Nil
  show ?case by (simp add: rmatch_tail)
next
  case (Cons x xs)
  let ?T = "[Piece Space Greedy False, Piece (Lit (CHR 0x27)) Once False]"
  let ?L = "Piece (NotLit (CHR 0x27)) Lazy True # ?T"
  let ?nq = "\<lambda>c. c \<noteq> CHR 0x27"
  have tailv: "rmatch ?T (x # xs) =
      (case dropWhile isspace_char (x # xs) of
        [] \<Rightarrow> None
      | y # after \<Rightarrow> if y = CHR 0x27 then Some ([], after) else None)"
    by (rule rmatch_tail)
  show ?case
  proof (cases "\<exists>after. dropWhile isspace_char (x # xs) = CHR 0x27 # after")
    case True
    then obtain after where dw: "dropWhile isspace_char (x # xs) = CHR 0x27 # after" ..
    from dropWhile_space_quote [OF dw]
    have a: "list_all isspace_char (takeWhile ?nq (x # xs))"
      and b: "dropWhile ?nq (x # xs) = CHR 0x27 # after"
      by simp_all
    have c: "rstrip (takeWhile ?nq (x # xs)) = []"
      using a by (simp add: rstrip_def list_all_iff del: takeWhile.simps)
    have t: "rmatch ?T (x # xs) = Some ([], after)"
      unfolding tailv dw by simp
    show ?thesis
      unfolding lazy_step t b c by simp
  next
    case False
    have t: "rmatch ?T (x # xs) = None"
    proof (cases "dropWhile isspace_char (x # xs)")
      case Nil
      then show ?thesis unfolding tailv by (simp only: list.case)
    next
      case c: (Cons y after)
      with False have "y \<noteq> CHR 0x27" by blast
      then show ?thesis unfolding tailv c by simp
    qed
    have xq: "x \<noteq> CHR 0x27"
    proof
      assume "x = CHR 0x27"
      then have "dropWhile isspace_char (x # xs) = CHR 0x27 # xs"
        using quote_not_space by simp
      with False show False by blast
    qed
    have d: "dropWhile ?nq (x # xs) = dropWhile ?nq xs"
      and tk: "takeWhile ?nq (x # xs) = x # takeWhile ?nq xs"
      using xq by simp_all
    show ?thesis
    proof (cases "dropWhile ?nq xs")
      case Nil
      have "rmatch ?L xs = None" unfolding Cons.IH Nil by simp
      then show ?thesis
        unfolding lazy_step t d Nil using xq by simp
    next
      case (Cons q rest)
      then have ih: "rmatch ?L xs = Some (rstrip (takeWhile ?nq xs), rest)"
        using Cons.IH by simp
      have "\<not> list_all isspace_char (x # takeWhile ?nq xs)"
      proof
        assume "list_all isspace_char (x # takeWhile ?nq xs)"
        then have "list_all isspace_char (takeWhile ?nq (x # xs))"
          unfolding tk .
        moreover have "dropWhile ?nq (x # xs) = q # rest"
          unfolding d by (rule Cons)
        ultimately have "dropWhile isspace_char (x # xs) = CHR 0x27 # rest"
          by (rule quote_after_spaces [rotated])
        with False show False by blast
      qed
      then have r: "rstrip (x # takeWhile ?nq xs) = x # rstrip (takeWhile ?nq xs)"
        by (simp only: rstrip_Cons if_False)
      show ?thesis
        unfolding lazy_step t d tk Cons ih r using xq by simp
    qed
  qed
qed

lemma greedy_step:
  "rmatch (Piece Space Greedy False # ps) (x # xs) =
     (if isspace_char x then
        (case rmatch (Piece Space Greedy False # ps) xs of
           None \<Rightarrow> rmatch ps (x # xs)
         | Some (g, r) \<Rightarrow> Some (g, r))
      else rmatch ps (x # xs))"
  by (simp split: option.splits)

lemma strip_rstrip: "strip s = rstrip (dropWhile isspace_char s)"
  by (simp add: strip_def rstrip_def)

lemma rmatch_inner:
  "rmatch [Piece Space Greedy False, Piece (NotLit (CHR 0x27)) Lazy True,
           Piece Space Greedy False, Piece (Lit (CHR 0x27)) Once False] s =
     (case dropWhile (\<lambda>c. c \<noteq> CHR 0x27) s of
        [] \<Rightarrow> None
      | q # after \<Rightarrow> Some (strip (takeWhile (\<lambda>c. c \<noteq> CHR 0x27) s), after))"
proof (induction s)
  case Nil
  show ?case by (simp add: rmatch_tail)
next
  case (Cons x xs)
  let ?L = "[Piece (NotLit (CHR 0x27)) Lazy True, Piece Space Greedy False,
             Piece (Lit (CHR 0x27)) Once False]"
  let ?nq = "\<lambda>c. c \<noteq> CHR 0x27"
  have lz: "rmatch ?L (x # xs) =
     (case dropWhile ?nq (x # xs) of
        [] \<Rightarrow> None
      | q # after \<Rightarrow> Some (rstrip (takeWhile ?nq (x # xs)), after))"
    by (rule rmatch_lazy)
  show ?case
  proof (cases "isspace_char x")
    case True
    then have xq: "x \<noteq> CHR 0x27" using quote_not_space by auto
    have d: "dropWhile ?nq (x # xs) = dropWhile ?nq xs"
      and tk: "takeWhile ?nq (x # xs) = x # takeWhile ?nq xs"
      using xq by simp_all
    have st: "strip (x # takeWhile ?nq xs) = strip (takeWhile ?nq xs)"
      using True by (simp add: strip_def)
    show ?thesis
    proof (cases "dropWhile ?nq xs")
      case Nil
      show ?thesis
        unfolding greedy_step lz d Cons.IH Nil using True by simp
    next
      case (Cons q rest)
      show ?thesis
        unfolding greedy_step lz d tk st Cons.IH Cons using True by simp
    qed
  next
    case False
    have eq: "strip (takeWhile ?nq (x # xs)) = rstrip (takeWhile ?nq (x # xs))"
      using False by (simp add: strip_rstrip)
    show ?thesis
      unfolding greedy_step lz eq using False by simp
  qed
qed

lemma rmatch_authors:
  "rmatch authors_pattern s =
     (case s of
        [] \<Rightarrow> None
      | x # rest \<Rightarrow>
          if x = CHR 0x27 then
            (case dropWhile (\<lambda>c. c \<noteq> CHR 0x27) rest of
               [] \<Rightarrow> None
             | q # after \<Rightarrow> Some (strip (takeWhile (\<lambda>c. c \<noteq> CHR 0x27) rest), after))
          else None)"
proof (cases s)
  case Nil
  then show ?thesis by (simp add: authors_pattern_def)
next
  case (Cons x rest)
  have "rmatch authors_pattern (x # rest) =
      (if x = CHR 0x27 then
         (case rmatch [Piece Space Greedy False, Piece (NotLit (CHR 0x27)) Lazy True,
                       Piece Space Greedy False, Piece (Lit (CHR 0x27)) Once False] rest of
            None \<Rightarrow> None | Some (g, r) \<Rightarrow> Some (g, r))
       else None)"
    by (simp add: authors_pattern_def del: rmatch.simps(4-7) split: option.splits)
  then show ?thesis
    unfolding Cons rmatch_inner by (simp split: list.splits)
qed

declare findall.simps [simp del]
declare quoted.simps [simp del]

lemma findall_skip:
  "findall authors_pattern s = findall authors_pattern (dropWhile (\<lambda>c. c \<noteq> CHR 0x27) s)"
proof (induction s)
  case Nil
  show ?case by simp
next
  case (Cons x xs)
  show ?case
  proof (cases "x = CHR 0x27")
    case True
    then show ?thesis by simp
  next
    case False
    then have "rmatch authors_pattern (x # xs) = None"
      by (simp add: rmatch_authors)
    then have "findall authors_pattern (x # xs) = findall authors_pattern xs"
      by (subst findall.simps) simp
    then show ?thesis using False Cons by simp
  qed
qed

lemma findall_quoted: "findall authors_pattern s = quoted s"
proof (induction s rule: length_induct)
  case (1 s)
  let ?nq = "\<lambda>c. c \<noteq> CHR 0x27"
  show ?case
  proof (cases "dropWhile ?nq s")
    case Nil
    have "findall authors_pattern [] = []"
      by (subst findall.simps) (simp add: rmatch_authors)
    then have "findall authors_pattern s = []"
      using findall_skip [of s] unfolding Nil by simp
    moreover have "quoted s = []"
      by (subst quoted.simps) (simp only: Nil list.case)
    ultimately show ?thesis by simp
  next
    case (Cons q rest)
    then have q: "q = CHR 0x27"
      using hd_dropWhile [of ?nq s] by auto
    have len1: "length (q # rest) \<le> length s"
      using length_dropWhile_le [of ?nq s] Cons by simp
    show ?thesis
    proof (cases "dropWhile ?nq rest")
      case Nil
      have m: "rmatch authors_pattern (q # rest) = None"
        by (simp add: rmatch_authors Nil q del: dropWhile_eq_Nil_conv)
      have "findall authors_pattern (q # rest) = findall authors_pattern rest"
        by (subst findall.simps) (simp add: m)
      also have "\<dots> = findall authors_pattern (dropWhile ?nq rest)"
        by (rule findall_skip)
      also have "\<dots> = []"
        unfolding Nil by (subst findall.simps) (simp add: rmatch_authors)
      finally have "findall authors_pattern s = []"
        using findall_skip [of s] Cons by simp
      moreover have "quoted s = []"
        by (subst quoted.simps) (simp only: Cons Nil list.case)
      ultimately show ?thesis by simp
    next
      case c2: (Cons q' after)
      have len2: "length (q' # after) \<le> length rest"
        using length_dropWhile_le [of ?nq rest] c2 by simp
      have m: "rmatch authors_pattern (q # rest) = Some (strip (takeWhile ?nq rest), after)"
        using c2 q by (simp add: rmatch_authors)
      have "length after < length (q # rest)" using len2 by simp
      then have "findall authors_pattern (q # rest)
                   = strip (takeWhile ?nq rest) # findall authors_pattern after"
        by (subst findall.simps) (simp add: m)
      moreover have "findall authors_pattern after = quoted after"
        using 1 len1 len2 by simp
      ultimately have "findall authors_pattern s = strip (takeWhile ?nq rest) # quoted after"
        using findall_skip [of s] Cons by simp
      moreover have "quoted s = strip (takeWhile ?nq rest) # quoted after"
        by (subst quoted.simps) (simp only: Cons c2 list.case)
      ultimately show ?thesis by simp
    qed
  qed
qed

lemma str_contains_single: "str_contains s [c] \<longleftrightarrow> c \<in> set s"
  by (induction s) (auto simp: startswith_def)

text \<open>
  Claim C9. For a value that is not empty and contains the bracket \<open>[\<close>,
  \<open>getAuthors\<close> returns the quoted substrings of the value, found by the regular
  expression, joined with a semicolon and a space; any other value is returned as it is.
  The value \<open>['Smith, J.', 'Doe, A.']\<close> becomes \<open>Smith, J.; Doe, A.\<close>.
\<close>

theorem getAuthors_spec:
  "getAuthors row =
     (if authors row \<noteq> [] \<and> CHR ''['' \<in> set (authors row)
      then join ''; '' (quoted (authors row))
      else authors row)
   \<and> getAuthors (row\<lparr>authors := ''['Smith, J.', 'Doe, A.']''\<rparr>) = ''Smith, J.; Doe, A.''"
proof -
  have "getAuthors (row\<lparr>authors := ''['Smith, J.', 'Doe, A.']''\<rparr>) = ''Smith, J.; Doe, A.''"
    by (simp add: getAuthors_def findall_quoted quoted.simps strip_def isspace_char_def
        startswith_def)
  then show ?thesis
    by (simp add: getAuthors_def Let_def findall_quoted str_contains_single)
qed


theorem getAuthors_spec_witness:
  "getAuthors (row_doi\<lparr>authors := ''['Smith, J.', 'Doe, A.']''\<rparr>) = ''Smith, J.; Doe, A.''
   \<and> getAuthors row_doi = ''Smith''"
proof -
  have 1: "getAuthors (row_doi\<lparr>authors := ''['Smith, J.', 'Doe, A.']''\<rparr>)
             = ''Smith, J.; Doe, A.''"
    by (rule getAuthors_spec [of row_doi, THEN conjunct2])
  have "getAuthors row_doi =
     (if authors row_doi \<noteq> [] \<and> CHR ''['' \<in> set (authors row_doi)
      then join ''; '' (quoted (authors row_doi))
      else authors row_doi)"
    by (rule getAuthors_spec [of row_doi, THEN conjunct1])
  then have 2: "getAuthors row_doi = ''Smith''"
    by (simp add: row_doi_def)
  from 1 2 show ?thesis ..
qed

subsection \<open>The statements the module sends\<close>

lemma parse_insert_articles:
  "parse_sql (insert_sql ARTICLES ''articles'') =
     Some (InsertInto ''articles''
       [''Id'', ''Source'', ''Published'', ''Publication'', ''Authors'', ''Title'', ''Tags'',
        ''Reference'']
       [''?'', ''?'', ''?'', ''?'', ''?'', ''?'', ''?'', ''?''])"
  by (simp add: insert_sql_def ARTICLES_def INSERT_ROW_def parse_sql_def parse_insert_def
      startswith_def is_identifier_def ident_char_def isdecimal_char_def)

lemma parse_insert_sections:
  "parse_sql (insert_sql SECTIONS ''sections'') =
     Some (InsertInto ''sections'' [''Id'', ''Article'', ''Text'', ''Tags'']
       [''?'', ''?'', ''?'', ''?''])"
  by (simp add: insert_sql_def SECTIONS_def INSERT_ROW_def parse_sql_def parse_insert_def
      startswith_def is_identifier_def ident_char_def isdecimal_char_def)



lemma values_articles:
  "values_row ARTICLES [a, b, c, d, e, f, g, h] (map fst ARTICLES) = Inr [a, b, c, d, e, f, g, h]"
  by (simp add: values_row_def ARTICLES_def startswith_def)

lemma values_sections:
  "values_row SECTIONS [PInt sid, u, t, g] (map fst SECTIONS) = Inr [PInt sid, u, t, g]"
  by (cases "sid = 0") (simp_all add: values_row_def SECTIONS_def startswith_def Let_def)

lemma key_columns_articles: "key_columns ARTICLES = [''Id'']"
  by (simp add: key_columns_def ARTICLES_def startswith_def)

lemma key_columns_sections: "key_columns SECTIONS = [''Id'']"
  by (simp add: key_columns_def SECTIONS_def startswith_def)

lemma stored_row:
  assumes "distinct (map fst sch)" and "length ps = length sch"
  shows "map (\<lambda>(c, t). case map_of (zip (map fst sch) ps) c of None \<Rightarrow> PNone | Some v \<Rightarrow> v) sch
           = ps"
proof (rule nth_equalityI)
  show "length (map (\<lambda>(c, t). case map_of (zip (map fst sch) ps) c of
                      None \<Rightarrow> PNone | Some v \<Rightarrow> v) sch) = length ps"
    using assms by simp
next
  fix i
  assume "i < length (map (\<lambda>(c, t). case map_of (zip (map fst sch) ps) c of
                      None \<Rightarrow> PNone | Some v \<Rightarrow> v) sch)"
  then have i: "i < length sch" by simp
  have "map_of (zip (map fst sch) ps) (map fst sch ! i) = Some (ps ! i)"
    using assms i by (intro map_of_zip_nth) simp_all
  then have "map_of (zip (map fst sch) ps) (fst (sch ! i)) = Some (ps ! i)"
    using i by simp
  then show "map (\<lambda>(c, t). case map_of (zip (map fst sch) ps) c of
                      None \<Rightarrow> PNone | Some v \<Rightarrow> v) sch ! i = ps ! i"
    using i by (simp add: case_prod_beta)
qed

lemma execute_insert:
  assumes p: "parse_sql sql = Some (InsertInto name (map fst sch) marks)"
    and t: "map_of (tables d) name = Some sch"
    and m: "length marks = length sch"
    and l: "length params = length sch"
    and b: "list_all bindable params"
    and dist: "distinct (map fst sch)"
  shows "execute d sql params =
     (case key_conflict sch (table_rows d name) params of
        Some c \<Rightarrow> Inl (Raise IntegrityError (''UNIQUE constraint failed: '' @ name @ ''.'' @ c))
      | None \<Rightarrow> Inr (d\<lparr>inserted := inserted d @ [(name, params)]\<rparr>))"
proof -
  have cols: "list_all (\<lambda>c. c \<in> set (map fst sch)) (map fst sch)"
    by (simp add: list_all_iff)
  have new: "map (\<lambda>(c, t). case map_of (zip (map fst sch) params) c of
                None \<Rightarrow> PNone | Some v \<Rightarrow> v) sch = params"
    using dist l by (rule stored_row)
  show ?thesis
    unfolding execute_def p option.case statement.case t
    using cols m l b by (simp only: new Let_def if_True if_False not_True_eq_False
        length_map not_not refl simp_thms)
qed

lemma key_conflict_articles:
  "key_conflict ARTICLES old [a, b, c, d, e, f, g, h] =
     (if a \<noteq> PNone \<and> list_ex (\<lambda>r. cell ARTICLES r ''Id'' = a) old then Some ''Id'' else None)"
proof -
  have "cell ARTICLES [a, b, c, d, e, f, g, h] ''Id'' = a"
    by (simp add: cell_def ARTICLES_def)
  then show ?thesis
    by (simp add: key_conflict_def key_columns_articles)
qed

lemma key_conflict_sections:
  "key_conflict SECTIONS old [a, b, c, d] =
     (if a \<noteq> PNone \<and> list_ex (\<lambda>r. cell SECTIONS r ''Id'' = a) old then Some ''Id'' else None)"
proof -
  have "cell SECTIONS [a, b, c, d] ''Id'' = a"
    by (simp add: cell_def SECTIONS_def)
  then show ?thesis
    by (simp add: key_conflict_def key_columns_sections)
qed

lemma map_fst_ARTICLES:
  "map fst ARTICLES = [''Id'', ''Source'', ''Published'', ''Publication'', ''Authors'', ''Title'',
     ''Tags'', ''Reference'']"
  by (simp add: ARTICLES_def)

lemma map_fst_SECTIONS: "map fst SECTIONS = [''Id'', ''Article'', ''Text'', ''Tags'']"
  by (simp add: SECTIONS_def)

lemma execute_insert_articles:
  assumes "map_of (tables d) ''articles'' = Some ARTICLES"
    and "list_all bindable [a, b, c, d', e, f, g, h]"
  shows "execute d (insert_sql ARTICLES ''articles'') [a, b, c, d', e, f, g, h] =
     (if a \<noteq> PNone \<and> list_ex (\<lambda>r. cell ARTICLES r ''Id'' = a) (table_rows d ''articles'')
      then Inl (Raise IntegrityError ''UNIQUE constraint failed: articles.Id'')
      else Inr (d\<lparr>inserted := inserted d @ [(''articles'', [a, b, c, d', e, f, g, h])]\<rparr>))"
proof -
  have "execute d (insert_sql ARTICLES ''articles'') [a, b, c, d', e, f, g, h] =
     (case key_conflict ARTICLES (table_rows d ''articles'') [a, b, c, d', e, f, g, h] of
        Some c \<Rightarrow> Inl (Raise IntegrityError (''UNIQUE constraint failed: '' @ ''articles'' @ ''.'' @ c))
      | None \<Rightarrow> Inr (d\<lparr>inserted := inserted d @ [(''articles'', [a, b, c, d', e, f, g, h])]\<rparr>))"
  proof (rule execute_insert [where marks = "[''?'', ''?'', ''?'', ''?'', ''?'', ''?'', ''?'', ''?'']"])
    show "parse_sql (insert_sql ARTICLES ''articles'') =
        Some (InsertInto ''articles'' (map fst ARTICLES)
               [''?'', ''?'', ''?'', ''?'', ''?'', ''?'', ''?'', ''?''])"
      unfolding map_fst_ARTICLES by (rule parse_insert_articles)
  qed (use assms in \<open>simp_all add: ARTICLES_def\<close>)
  then show ?thesis
    by (simp add: key_conflict_articles)
qed

lemma execute_insert_sections:
  assumes "map_of (tables d) ''sections'' = Some SECTIONS"
    and "list_all bindable [a, b, c, d']"
  shows "execute d (insert_sql SECTIONS ''sections'') [a, b, c, d'] =
     (if a \<noteq> PNone \<and> list_ex (\<lambda>r. cell SECTIONS r ''Id'' = a) (table_rows d ''sections'')
      then Inl (Raise IntegrityError ''UNIQUE constraint failed: sections.Id'')
      else Inr (d\<lparr>inserted := inserted d @ [(''sections'', [a, b, c, d'])]\<rparr>))"
proof -
  have "execute d (insert_sql SECTIONS ''sections'') [a, b, c, d'] =
     (case key_conflict SECTIONS (table_rows d ''sections'') [a, b, c, d'] of
        Some c \<Rightarrow> Inl (Raise IntegrityError (''UNIQUE constraint failed: '' @ ''sections'' @ ''.'' @ c))
      | None \<Rightarrow> Inr (d\<lparr>inserted := inserted d @ [(''sections'', [a, b, c, d'])]\<rparr>))"
  proof (rule execute_insert [where marks = "[''?'', ''?'', ''?'', ''?'']"])
    show "parse_sql (insert_sql SECTIONS ''sections'') =
        Some (InsertInto ''sections'' (map fst SECTIONS) [''?'', ''?'', ''?'', ''?''])"
      unfolding map_fst_SECTIONS by (rule parse_insert_sections)
  qed (use assms in \<open>simp_all add: SECTIONS_def\<close>)
  then show ?thesis
    by (simp add: key_conflict_sections)
qed

subsection \<open>Inserting rows while the loop runs\<close>

lemma insert_row_articles:
  assumes "map_of (tables (conn w)) ''articles'' = Some ARTICLES"
    and "list_all bindable [a, b, c, d, e, f, g, h]"
  shows "insert_row w ARTICLES ''articles'' [a, b, c, d, e, f, g, h] =
     (if a \<noteq> PNone \<and> list_ex (\<lambda>r. cell ARTICLES r ''Id'' = a) (table_rows (conn w) ''articles'')
      then (w\<lparr>stdout := stdout w @ [ErrorInserting a
               (Raise IntegrityError ''UNIQUE constraint failed: articles.Id'')]\<rparr>, None)
      else (w\<lparr>conn := (conn w)\<lparr>inserted := inserted (conn w)
               @ [(''articles'', [a, b, c, d, e, f, g, h])]\<rparr>\<rparr>, None))"
  unfolding insert_row_def Let_def values_articles sum.case
    execute_insert_articles [OF assms]
  by simp

lemma insert_row_sections:
  assumes "map_of (tables (conn w)) ''sections'' = Some SECTIONS"
    and "list_all bindable [PInt sid, u, t, g]"
  shows "insert_row w SECTIONS ''sections'' [PInt sid, u, t, g] =
     (if list_ex (\<lambda>r. cell SECTIONS r ''Id'' = PInt sid) (table_rows (conn w) ''sections'')
      then (w\<lparr>stdout := stdout w @ [ErrorInserting (PInt sid)
               (Raise IntegrityError ''UNIQUE constraint failed: sections.Id'')]\<rparr>, None)
      else (w\<lparr>conn := (conn w)\<lparr>inserted := inserted (conn w)
               @ [(''sections'', [PInt sid, u, t, g])]\<rparr>\<rparr>, None))"
  unfolding insert_row_def Let_def values_sections sum.case
    execute_insert_sections [OF assms]
  by simp

lemma table_rows_append:
  "table_rows (d\<lparr>inserted := inserted d @ js\<rparr>) name
     = table_rows d name @ map snd (filter (\<lambda>(n, r). n = name) js)"
  by (simp add: table_rows_def)

lemma streaming_fresh:
  assumes "streaming w sid"
  shows "\<not> list_ex (\<lambda>r. cell SECTIONS r ''Id'' = PInt sid) (table_rows (conn w) ''sections'')"
proof
  assume "list_ex (\<lambda>r. cell SECTIONS r ''Id'' = PInt sid) (table_rows (conn w) ''sections'')"
  then obtain r where "r \<in> set (table_rows (conn w) ''sections'')"
    and r: "cell SECTIONS r ''Id'' = PInt sid"
    by (auto simp: list_ex_iff)
  then have "PInt sid \<in> set (map (\<lambda>r. cell SECTIONS r ''Id'') (table_rows (conn w) ''sections''))"
    by force
  moreover have "map (\<lambda>r. cell SECTIONS r ''Id'') (table_rows (conn w) ''sections'')
                   = map (\<lambda>k. PInt (int k)) [0..<nat sid]"
    using assms by (simp add: streaming_def)
  ultimately have "PInt sid \<in> set (map (\<lambda>k. PInt (int k)) [0..<nat sid])"
    by (simp only:)
  then show False by auto
qed

lemma streaming_stdout [simp]: "streaming (w\<lparr>stdout := out\<rparr>) sid = streaming w sid"
  by (simp add: streaming_def)

lemma streaming_section:
  assumes "streaming w sid"
  shows "streaming (w\<lparr>conn := (conn w)\<lparr>inserted := inserted (conn w)
            @ [(''sections'', [PInt sid, u, t, g])]\<rparr>\<rparr>) (sid + 1)"
proof -
  have c: "cell SECTIONS [PInt sid, u, t, g] ''Id'' = PInt sid"
    by (simp add: cell_def SECTIONS_def)
  have n: "[0..<nat (sid + 1)] = [0..<nat sid] @ [nat sid]"
    using assms by (simp add: streaming_def nat_add_distrib)
  show ?thesis
    using assms by (simp add: streaming_def table_rows_append c n)
qed

lemma streaming_article:
  assumes "streaming w sid"
  shows "streaming (w\<lparr>conn := (conn w)\<lparr>inserted := inserted (conn w) @ [(''articles'', a)]\<rparr>\<rparr>) sid"
  using assms by (simp add: streaming_def table_rows_append)

lemma insert_sections_eq:
  assumes "streaming w sid" and "list_all bindable txts" and "bindable tags"
  shows "insert_sections w uid tags sid txts =
     ((w\<lparr>conn := (conn w)\<lparr>inserted := inserted (conn w) @ section_rows uid tags sid txts\<rparr>\<rparr>,
       sid + int (length txts)), None)"
  using assms
proof (induction txts arbitrary: w sid)
  case Nil
  show ?case by simp
next
  case (Cons tx rest)
  let ?w1 = "w\<lparr>conn := (conn w)\<lparr>inserted := inserted (conn w)
               @ [(''sections'', [PInt sid, PStr uid, tx, tags])]\<rparr>\<rparr>"
  have tab: "map_of (tables (conn w)) ''sections'' = Some SECTIONS"
    using Cons.prems(1) by (simp add: streaming_def)
  have bind: "list_all bindable [PInt sid, PStr uid, tx, tags]"
    using Cons.prems by simp
  have step: "insert_row w SECTIONS ''sections'' [PInt sid, PStr uid, tx, tags] = (?w1, None)"
    unfolding insert_row_sections [OF tab bind]
    using streaming_fresh [OF Cons.prems(1)] by simp
  have s1: "streaming ?w1 (sid + 1)"
    using Cons.prems(1) by (rule streaming_section)
  have rest: "list_all bindable rest" using Cons.prems(2) by simp
  have "insert_sections ?w1 uid tags (sid + 1) rest =
     ((?w1\<lparr>conn := (conn ?w1)\<lparr>inserted := inserted (conn ?w1)
          @ section_rows uid tags (sid + 1) rest\<rparr>\<rparr>, sid + 1 + int (length rest)), None)"
    using s1 rest Cons.prems(3) by (rule Cons.IH)
  then show ?case
    by (simp add: step)
qed

lemma getTags_loop_strings:
  assumes "getTags_loop txts t = Inr tags" and "t = PNone \<or> t = PStr ''COVID-19''"
  shows "list_all bindable txts \<and> (tags = PNone \<or> tags = PStr ''COVID-19'')
         \<and> (\<forall>s \<in> set txts. \<exists>tx. s = PStr tx)"
  using assms
proof (induction txts t rule: getTags_loop.induct)
  case (1 tags')
  then show ?case by auto
next
  case (2 tx rest tags')
  then show ?case by (auto split: if_splits)
qed simp_all

lemma run_row_eq:
  assumes st: "streaming w sid"
    and rd: "read fs dir (getId row) = Inr body"
    and tg: "getTags (PStr (title row) # body) = Inr tags"
  shows "run_row parse fs dir (w, index, sid) row =
     ((w\<lparr>conn := (conn w)\<lparr>inserted := inserted (conn w)
            @ (if taken w (getId row) then [] else [(''articles'', article_row parse row tags)])
            @ section_rows (getId row) tags sid (PStr (title row) # body)\<rparr>,
         stdout := stdout w
            @ (if taken w (getId row)
               then [ErrorInserting (PStr (getId row))
                       (Raise IntegrityError ''UNIQUE constraint failed: articles.Id'')]
               else [])
            @ (if (index + 1) mod 1000 = 0 then [InsertedArticles (index + 1)] else [])\<rparr>,
       index + 1, sid + 1 + int (length body)), None)"
proof -
  let ?uid = "getId row"
  let ?secs = "PStr (title row) # body"
  let ?date = "case getDate parse row of None \<Rightarrow> PNone | Some d \<Rightarrow> PDate d"
  let ?err = "ErrorInserting (PStr ?uid) (Raise IntegrityError ''UNIQUE constraint failed: articles.Id'')"
  from tg have b: "list_all bindable ?secs" and t: "tags = PNone \<or> tags = PStr ''COVID-19''"
    using getTags_loop_strings [of ?secs PNone tags] by (simp_all add: getTags_def)
  from t have bt: "bindable tags" by auto
  have bd: "bindable ?date" by (simp split: option.splits)
  have tab: "map_of (tables (conn w)) ''articles'' = Some ARTICLES"
    using st by (simp add: streaming_def)
  define w1 where "w1 = (if taken w ?uid then w\<lparr>stdout := stdout w @ [?err]\<rparr>
      else w\<lparr>conn := (conn w)\<lparr>inserted := inserted (conn w)
              @ [(''articles'', article_row parse row tags)]\<rparr>\<rparr>)"
  have art: "insert_row w ARTICLES ''articles''
       [PStr ?uid, PStr (source_x row), ?date, PStr (journal row), PStr (getAuthors row),
        PStr (title row), tags, PStr (getReference row)] = (w1, None)"
    by (subst insert_row_articles [OF tab])
       (use bt bd in \<open>simp_all add: w1_def taken_def article_row_def\<close>)
  have s1: "streaming w1 sid"
    using st by (simp add: w1_def streaming_article)
  define w2 where "w2 = (if (index + 1) mod 1000 = 0
      then w1\<lparr>stdout := stdout w1 @ [InsertedArticles (index + 1)]\<rparr> else w1)"
  have s2: "streaming w2 sid"
    using s1 by (simp add: w2_def)
  have secs: "insert_sections w2 ?uid tags sid ?secs =
     ((w2\<lparr>conn := (conn w2)\<lparr>inserted := inserted (conn w2)
          @ section_rows ?uid tags sid ?secs\<rparr>\<rparr>, sid + int (length ?secs)), None)"
    using s2 b bt by (rule insert_sections_eq)
  have "run_row parse fs dir (w, index, sid) row =
     ((w2\<lparr>conn := (conn w2)\<lparr>inserted := inserted (conn w2)
          @ section_rows ?uid tags sid ?secs\<rparr>\<rparr>, index + 1, sid + int (length ?secs)), None)"
    unfolding run_row_def prod.case Let_def rd tg sum.case art option.case
    using secs by (simp add: w2_def Let_def)
  also have "w2\<lparr>conn := (conn w2)\<lparr>inserted := inserted (conn w2)
          @ section_rows ?uid tags sid ?secs\<rparr>\<rparr> =
     w\<lparr>conn := (conn w)\<lparr>inserted := inserted (conn w)
            @ (if taken w ?uid then [] else [(''articles'', article_row parse row tags)])
            @ section_rows ?uid tags sid ?secs\<rparr>,
         stdout := stdout w
            @ (if taken w ?uid then [?err] else [])
            @ (if (index + 1) mod 1000 = 0 then [InsertedArticles (index + 1)] else [])\<rparr>"
    by (simp add: w2_def w1_def)
  finally show ?thesis by simp
qed



subsection \<open>The order of the inserted rows\<close>









subsection \<open>The whole run\<close>









subsection \<open>A run on the sample directory\<close>

lemma read_abc:
  "read files_abc ''/data'' ''abc''
     = Inr [PStr ''First paragraph on SARS-CoV-2'', PStr ''Second paragraph'']"
  by (simp add: read_def files_abc_def path_join_def startswith_def)


lemma tags_abc:
  "getTags [PStr ''COVID Study'', PStr ''First paragraph on SARS-CoV-2'', PStr ''Second paragraph'']
     = Inr (PStr ''COVID-19'')"
  by (simp add: getTags_def keywords_getTags_def lower_def lower_char_def startswith_def
      char_of_eq_iff)


lemma cell_articles_Id: "cell ARTICLES (a # rest) ''Id'' = a"
  by (simp add: cell_def ARTICLES_def)

lemma cell_sections_Id: "cell SECTIONS (a # rest) ''Id'' = a"
  by (simp add: cell_def SECTIONS_def)



subsection \<open>The tags\<close>





lemma cell_tags:
  "cell ARTICLES (article_row parse row tg) ''Tags'' = tg"
  "cell SECTIONS [a, b, c, tg] ''Tags'' = tg"
  by (simp_all add: cell_def ARTICLES_def SECTIONS_def article_row_def)

lemma section_rows_tags:
  "\<forall>s \<in> set (section_rows uid tg sid txs). fst s = ''sections'' \<and> cell SECTIONS (snd s) ''Tags'' = tg
      \<and> cell SECTIONS (snd s) ''Article'' = PStr uid"
proof (induction txs arbitrary: sid)
  case Nil
  show ?case by simp
next
  case (Cons t txs)
  have "cell SECTIONS [PInt sid, PStr uid, t, tg] ''Article'' = PStr uid"
    by (simp add: cell_def SECTIONS_def)
  then show ?case using Cons by (simp add: cell_tags)
qed


lemma getId_row_doi: "getId row_doi = ''abc''"
  by (simp add: getId_def row_doi_def)



lemma streaming_world_one: "streaming world_one 3"
  by (simp add: streaming_def world_one_def table_rows_def cell_sections_Id upt_rec)

lemma taken_world_one: "taken world_one ''abc''"
  by (simp add: taken_def world_one_def table_rows_def article_row_def cell_articles_Id
      getId_row_doi)

subsection \<open>A failed insert of the article\<close>

lemma filter_section_rows:
  "filter (\<lambda>(n, r). n = ''articles'') (section_rows uid tags sid txs) = []"
  "filter (\<lambda>(n, r). n = ''sections'') (section_rows uid tags sid txs)
     = section_rows uid tags sid txs"
  by (induction txs arbitrary: sid) simp_all

text \<open>
  Claim C10. When the loop of \<open>run\<close> reaches a metadata row whose id an \<open>articles\<close>
  row already has, the insert of its \<open>articles\<close> row fails on the primary key; the
  exception is caught inside \<open>insert\<close>, which prints the error and returns without
  one, and the loop goes on to insert every \<open>sections\<close> row of the metadata row with
  that id in the column \<open>Article\<close>. The \<open>articles\<close> table is as it was: no
  \<open>articles\<close> row was written for this metadata row, while its \<open>sections\<close> rows
  are in the store.
\<close>

theorem failed_article_keeps_sections:
  assumes "streaming w sid" and "taken w (getId row)"
    and "read fs directory (getId row) = Inr body"
    and "getTags (PStr (title row) # body) = Inr tags"
    and "run_row parse fs directory (w, index, sid) row = ((w', index', sid'), r)"
  shows "r = None
     \<and> insert_row w ARTICLES ''articles'' (article_row parse row tags)
         = (w\<lparr>stdout := stdout w @ [ErrorInserting (PStr (getId row))
               (Raise IntegrityError ''UNIQUE constraint failed: articles.Id'')]\<rparr>, None)
     \<and> table_rows (conn w') ''articles'' = table_rows (conn w) ''articles''
     \<and> inserted (conn w')
         = inserted (conn w) @ section_rows (getId row) tags sid (PStr (title row) # body)
     \<and> table_rows (conn w') ''sections''
         = table_rows (conn w) ''sections''
             @ map snd (section_rows (getId row) tags sid (PStr (title row) # body))
     \<and> list_all (\<lambda>s. cell SECTIONS s ''Article'' = PStr (getId row))
           (map snd (section_rows (getId row) tags sid (PStr (title row) # body)))"
proof -
  from assms(5) [unfolded run_row_eq [OF assms(1,3,4)]] assms(2)
  have r: "r = None"
    and ins: "inserted (conn w')
         = inserted (conn w) @ section_rows (getId row) tags sid (PStr (title row) # body)"
    by auto
  have sec: "\<forall>s \<in> set (section_rows (getId row) tags sid (PStr (title row) # body)).
      fst s = ''sections'' \<and> cell SECTIONS (snd s) ''Tags'' = tags
      \<and> cell SECTIONS (snd s) ''Article'' = PStr (getId row)"
    by (rule section_rows_tags)
  have a: "table_rows (conn w') ''articles'' = table_rows (conn w) ''articles''"
    unfolding table_rows_def ins by (simp add: filter_section_rows del: section_rows.simps)
  have s: "table_rows (conn w') ''sections''
         = table_rows (conn w) ''sections''
             @ map snd (section_rows (getId row) tags sid (PStr (title row) # body))"
    unfolding table_rows_def ins by (simp add: filter_section_rows del: section_rows.simps)
  from getTags_loop_strings [of "PStr (title row) # body" PNone tags] assms(4)
  have bt: "bindable tags" by (auto simp: getTags_def)
  have tab: "map_of (tables (conn w)) ''articles'' = Some ARTICLES"
    using assms(1) by (simp add: streaming_def)
  have art: "insert_row w ARTICLES ''articles'' (article_row parse row tags)
         = (w\<lparr>stdout := stdout w @ [ErrorInserting (PStr (getId row))
               (Raise IntegrityError ''UNIQUE constraint failed: articles.Id'')]\<rparr>, None)"
    unfolding article_row_def
    by (subst insert_row_articles [OF tab])
       (use bt assms(2) in \<open>simp_all add: taken_def split: option.splits\<close>)
  have l: "list_all (\<lambda>s. cell SECTIONS s ''Article'' = PStr (getId row))
           (map snd (section_rows (getId row) tags sid (PStr (title row) # body)))"
    using sec by (simp add: list_all_iff)
  from r art a ins s l show ?thesis by (intro conjI)
qed

theorem failed_article_keeps_sections_witness:
  "snd (run_row parse_2020 files_abc ''/data'' (world_one, 1, 3) row_doi) = None
   \<and> table_rows (conn (fst (fst (run_row parse_2020 files_abc ''/data'' (world_one, 1, 3) row_doi))))
         ''articles''
       = [article_row parse_2020 row_doi (PStr ''COVID-19'')]
   \<and> table_rows (conn (fst (fst (run_row parse_2020 files_abc ''/data'' (world_one, 1, 3) row_doi))))
         ''sections''
       = [[PInt 0, PStr ''abc'', PStr ''COVID Study'', PStr ''COVID-19''],
          [PInt 1, PStr ''abc'', PStr ''First paragraph on SARS-CoV-2'', PStr ''COVID-19''],
          [PInt 2, PStr ''abc'', PStr ''Second paragraph'', PStr ''COVID-19''],
          [PInt 3, PStr ''abc'', PStr ''COVID Study'', PStr ''COVID-19''],
          [PInt 4, PStr ''abc'', PStr ''First paragraph on SARS-CoV-2'', PStr ''COVID-19''],
          [PInt 5, PStr ''abc'', PStr ''Second paragraph'', PStr ''COVID-19'']]"
proof -
  let ?rr = "run_row parse_2020 files_abc ''/data'' (world_one, 1, 3) row_doi"
  have h1: "taken world_one (getId row_doi)"
    unfolding getId_row_doi by (rule taken_world_one)
  have h2: "read files_abc ''/data'' (getId row_doi)
      = Inr [PStr ''First paragraph on SARS-CoV-2'', PStr ''Second paragraph'']"
    unfolding getId_row_doi by (rule read_abc)
  have h3: "getTags (PStr (title row_doi)
        # [PStr ''First paragraph on SARS-CoV-2'', PStr ''Second paragraph''])
      = Inr (PStr ''COVID-19'')"
    using tags_abc by (simp add: row_doi_def)
  have h4: "?rr = ((fst (fst ?rr), fst (snd (fst ?rr)), snd (snd (fst ?rr))), snd ?rr)"
    by simp
  note th = failed_article_keeps_sections [OF streaming_world_one h1 h2 h3 h4]
  have 1: "snd ?rr = None"
    using th by (rule conjunct1)
  have "table_rows (conn (fst (fst ?rr))) ''articles'' = table_rows (conn world_one) ''articles''"
    using th by blast
  then have 2: "table_rows (conn (fst (fst ?rr))) ''articles''
      = [article_row parse_2020 row_doi (PStr ''COVID-19'')]"
    by (simp add: world_one_def table_rows_def)
  have "table_rows (conn (fst (fst ?rr))) ''sections''
         = table_rows (conn world_one) ''sections''
             @ map snd (section_rows (getId row_doi) (PStr ''COVID-19'') 3
                 (PStr (title row_doi)
                    # [PStr ''First paragraph on SARS-CoV-2'', PStr ''Second paragraph'']))"
    using th by blast
  then have 3: "table_rows (conn (fst (fst ?rr))) ''sections''
       = [[PInt 0, PStr ''abc'', PStr ''COVID Study'', PStr ''COVID-19''],
          [PInt 1, PStr ''abc'', PStr ''First paragraph on SARS-CoV-2'', PStr ''COVID-19''],
          [PInt 2, PStr ''abc'', PStr ''Second paragraph'', PStr ''COVID-19''],
          [PInt 3, PStr ''abc'', PStr ''COVID Study'', PStr ''COVID-19''],
          [PInt 4, PStr ''abc'', PStr ''First paragraph on SARS-CoV-2'', PStr ''COVID-19''],
          [PInt 5, PStr ''abc'', PStr ''Second paragraph'', PStr ''COVID-19'']]"
    by (simp add: world_one_def table_rows_def getId_row_doi) (simp add: row_doi_def)
  from 1 2 3 show ?thesis by (intro conjI)
qed

end
